theory Spec2Isabelle
  imports Main "HOL-Library.Word"
begin

section \<open>Bytes, error values and system-call numbers\<close>

type_synonym byte = "8 word"
type_synonym bytes = "byte list"

text \<open>
  A \<open>syscall.Errno\<close> is a number; \<open>0\<close> means that the call did not fail.
  \<open>unix.EAGAIN\<close> is \<open>0xb\<close> on Linux.
\<close>

type_synonym Errno = nat

definition EAGAIN :: Errno where
  "EAGAIN = 0xb"

text \<open>
  Go \<open>error\<close> values: a bare errno, the wrapper built by
  \<open>os.NewSyscallError(name, err)\<close>, and any other error (a codec's, the loop's).
\<close>

datatype error =
    ErrnoError Errno
  | SyscallError string error
  | OtherError string

section \<open>Scatter/gather adapter: \<open>SendMsgs\<close>\<close>

text \<open>
  A Go byte slice as \<open>SendMsgs\<close> sees it: the address of its first element and its
  elements. \<open>&iov[0]\<close> is \<open>ptr\<close>; \<open>len(iov)\<close> is the length of \<open>elems\<close>.
\<close>

record slice =
  ptr :: nat
  elems :: bytes

text \<open>\<open>unix.Iovec\<close>: a base address and a length.\<close>

record Iovec =
  Base :: nat
  Len :: nat

text \<open>
  \<open>unix.Msghdr{Iov: &iovecs[0], Iovlen: n}\<close>: the pointer to the first element together
  with the count designates the array; \<open>Iov\<close> holds that array.
\<close>

record Msghdr =
  Iov :: "Iovec list"
  Iovlen :: nat

text \<open>A raw system call: its number and its three arguments (fd, message header, flags).\<close>

datatype sysno = SYS_SENDMSG

record syscall =
  trap :: sysno
  a1 :: int
  a2 :: Msghdr
  a3 :: nat

definition MSG_ZEROCOPY :: nat where
  "MSG_ZEROCOPY = 0x4000000"

datatype panic = IndexOutOfRange

text \<open>
  The loop \<open>for i, iov := range iovs\<close>: element \<open>i\<close> of \<open>iovecs\<close> gets the length of
  slice \<open>i\<close>, and as base the address of its first byte, or the address of the package
  variable \<open>_zero\<close> when the slice is empty.
\<close>

definition mk_iovec :: "nat \<Rightarrow> slice \<Rightarrow> Iovec" where
  "mk_iovec zero_addr iov =
     \<lparr>Base = (if length (elems iov) > 0 then ptr iov else zero_addr),
      Len = length (elems iov)\<rparr>"

definition build_iovecs :: "nat \<Rightarrow> slice list \<Rightarrow> Iovec list" where
  "build_iovecs zero_addr iovs = map (mk_iovec zero_addr) iovs"

text \<open>
  \<open>SendMsgs(fd, iovs)\<close>. The kernel is the parameter \<open>krn\<close>: for a system call it
  gives the pair \<open>(r, errno)\<close> that \<open>unix.Syscall\<close> returns. The result is a panic, or
  the list of system calls issued together with the Go result \<open>(int, error)\<close>, the error
  being an errno or nil. \<open>&iovecs[0]\<close> panics when \<open>iovecs\<close> has no element; \<open>int(r)\<close>
  reads the 64-bit \<open>uintptr\<close> as a signed integer.
\<close>

definition SendMsgs ::
  "(syscall \<Rightarrow> 64 word \<times> Errno) \<Rightarrow> nat \<Rightarrow> int \<Rightarrow> slice list
     \<Rightarrow> panic + (syscall list \<times> int \<times> Errno option)" where
  "SendMsgs krn zero_addr fd iovs =
     (let iovecs = build_iovecs zero_addr iovs in
      if length iovecs = 0 then Inl IndexOutOfRange
      else
        let msg = \<lparr>Iov = iovecs, Iovlen = length iovecs\<rparr>;
            call = \<lparr>trap = SYS_SENDMSG, a1 = fd, a2 = msg, a3 = MSG_ZEROCOPY\<rparr>;
            (r, errno) = krn call
        in if errno \<noteq> 0 then Inr ([call], 0, Some errno)
           else Inr ([call], sint r, None))"

section \<open>Ring buffer of the inbound side\<close>

text \<open>
  Modelled from the spec: \<open>pkg/ringbuffer\<close> is not among the sources. The spec gives a
  circular array with a read index \<open>r\<close>, a write index \<open>w\<close> and a capacity \<open>C\<close>; the
  indices are virtual, running over \<open>2C\<close> positions, and the length is \<open>w - r\<close> modulo
  \<open>2C\<close>. The capacity is the length of the array. The byte at virtual position \<open>v\<close>
  sits at index \<open>v mod C\<close> of the array.
\<close>

record RingBuffer =
  rb_buf :: bytes
  rb_r :: nat
  rb_w :: nat

definition rb_cap :: "RingBuffer \<Rightarrow> nat" where
  "rb_cap rb = length (rb_buf rb)"

text \<open>Modelled from the spec: \<open>Length()\<close>, "\<open>w - r\<close> modulo \<open>2C\<close>".\<close>

definition rb_Length :: "RingBuffer \<Rightarrow> int" where
  "rb_Length rb = (int (rb_w rb) - int (rb_r rb)) mod (2 * int (rb_cap rb))"

text \<open>
  Modelled from the spec: \<open>Peek(n)\<close> "returns up to \<open>n\<close> bytes as two contiguous slices;
  \<open>tail\<close> is empty when no wrap occurred. Must not mutate state. If \<open>n \<le> 0\<close> or
  \<open>n > length\<close>, returns all available." A nil slice is the empty list.
\<close>

definition rb_Peek :: "RingBuffer \<Rightarrow> int \<Rightarrow> bytes \<times> bytes" where
  "rb_Peek rb n =
     (let l = rb_Length rb;
          m = nat (if n \<le> 0 \<or> n > l then l else n);
          i = rb_r rb mod rb_cap rb
      in if i + m \<le> rb_cap rb then (take m (drop i (rb_buf rb)), [])
         else (drop i (rb_buf rb), take (i + m - rb_cap rb) (rb_buf rb)))"

text \<open>Modelled from the spec: \<open>PeekAll()\<close> is "equivalent to Peek(length)".\<close>

definition rb_PeekAll :: "RingBuffer \<Rightarrow> bytes \<times> bytes" where
  "rb_PeekAll rb = rb_Peek rb (rb_Length rb)"

text \<open>
  Modelled from the spec: \<open>Discard(n)\<close> "advances the read index by \<open>min(n, length)\<close>;
  returns the number discarded". The new index is taken modulo \<open>2C\<close>. The spec does
  not single out a negative \<open>n\<close>; the formula is kept as it stands there.
\<close>

definition rb_Discard :: "RingBuffer \<Rightarrow> int \<Rightarrow> int \<times> RingBuffer" where
  "rb_Discard rb n =
     (let d = min n (rb_Length rb)
      in (d, rb\<lparr>rb_r := nat ((int (rb_r rb) + d) mod (2 * int (rb_cap rb)))\<rparr>))"

text \<open>
  Modelled from the spec: \<open>ByteBuffer()\<close>, which the spec only describes through the
  transit buffer it fills, "a linear copy of bytes peeked across a ring wrap": the head
  followed by the tail of everything buffered.
\<close>

definition rb_ByteBuffer :: "RingBuffer \<Rightarrow> bytes" where
  "rb_ByteBuffer rb = (let (head, tail) = rb_PeekAll rb in head @ tail)"

text \<open>\<open>ringbuffer.EmptyRingBuffer\<close>: a ring without storage.\<close>

definition EmptyRingBuffer :: RingBuffer where
  "EmptyRingBuffer = \<lparr>rb_buf = [], rb_r = 0, rb_w = 0\<rparr>"

text \<open>
  The buffered bytes in FIFO order: the byte at distance \<open>j\<close> from the read index, for
  every \<open>j\<close> below the length. This is what the statements about reads are measured
  against.
\<close>

definition rb_bytes :: "RingBuffer \<Rightarrow> bytes" where
  "rb_bytes rb =
     map (\<lambda>j. rb_buf rb ! ((rb_r rb + j) mod rb_cap rb)) [0 ..< nat (rb_Length rb)]"

text \<open>
  The states a ring can be in: it holds no more bytes than its capacity. (A ring
  without storage, such as \<open>EmptyRingBuffer\<close>, then holds none.)
\<close>

definition rb_wf :: "RingBuffer \<Rightarrow> bool" where
  "rb_wf rb \<longleftrightarrow> 0 \<le> rb_Length rb \<and> rb_Length rb \<le> int (rb_cap rb)"

section \<open>Byte buffer of the transit side\<close>

text \<open>
  \<open>bytebuffer.ByteBuffer\<close> (\<open>pkg/pool/bytebuffer\<close>, which is not among the sources,
  names the byte buffer of the \<open>bytebufferpool\<close> library) is a growable byte slice
  \<open>B\<close>: \<open>Reset\<close> empties it, \<open>Write\<close> appends, \<open>bytebuffer.Get()\<close> hands out an
  empty one. A connection's \<open>transitBuffer\<close> is a pointer to one, or nil.
\<close>

definition bb_Get :: bytes where
  "bb_Get = []"

definition bb_Reset :: "bytes \<Rightarrow> bytes" where
  "bb_Reset b = []"

definition bb_Write :: "bytes \<Rightarrow> bytes \<Rightarrow> bytes" where
  "bb_Write b p = b @ p"

section \<open>Mixed outbound buffer\<close>

text \<open>
  Modelled from the spec: \<open>pkg/mixedbuffer\<close> is not among the sources. "A ring of
  bounded capacity plus an ordered list of owned byte segments." The ring is kept as the
  bytes it holds and its bound.
\<close>

record MixedBuffer =
  maxStaticBytes :: nat
  ringBytes :: bytes
  listBuffer :: "bytes list"

text \<open>Modelled from the spec: "Both ring and list must be empty for the buffer to be empty".\<close>

definition mb_IsEmpty :: "MixedBuffer \<Rightarrow> bool" where
  "mb_IsEmpty mb \<longleftrightarrow> ringBytes mb = [] \<and> listBuffer mb = []"

text \<open>
  Modelled from the spec: "Write policy: if the list is empty and the bytes fit in the
  ring, append to ring; otherwise append to list."
\<close>

definition mb_Write :: "MixedBuffer \<Rightarrow> bytes \<Rightarrow> MixedBuffer" where
  "mb_Write mb p =
     (if listBuffer mb = [] \<and> length (ringBytes mb) + length p \<le> maxStaticBytes mb
      then mb\<lparr>ringBytes := ringBytes mb @ p\<rparr>
      else mb\<lparr>listBuffer := listBuffer mb @ [p]\<rparr>)"

text \<open>Modelled from the spec: \<open>Release()\<close> gives the ring and the segments back.\<close>

definition mb_Release :: "MixedBuffer \<Rightarrow> MixedBuffer" where
  "mb_Release mb = mb\<lparr>ringBytes := [], listBuffer := []\<rparr>"

text \<open>
  The buffered bytes in FIFO order ("drain the ring first, then drain the list in
  order").
\<close>

definition mb_bytes :: "MixedBuffer \<Rightarrow> bytes" where
  "mb_bytes mb = ringBytes mb @ concat (listBuffer mb)"

section \<open>Connections\<close>

text \<open>
  The \<open>conn\<close> struct. \<open>loop\<close>, \<open>codec\<close> and \<open>pollAttachment\<close> are references into the
  event loop; what the functions below use of them is in \<open>loop_view\<close> and \<open>env\<close>.
  Addresses and the user context are opaque values, nil being \<open>None\<close>.
\<close>

record conn =
  fd :: int
  sa :: "string option"
  ctx :: "nat option"
  opened :: bool
  localAddr :: "string option"
  remoteAddr :: "string option"
  inboundBuffer :: RingBuffer
  transitBuffer :: "bytes option"
  outboundBuffer :: MixedBuffer

text \<open>The interest mask of a poll registration: "read-only, read+write".\<close>

datatype interest = ReadOnly | ReadWrite

text \<open>
  What a connection operation does to the outside, in order: the calls of the user
  handler's hooks, the system calls, the calls of the poller.
\<close>

datatype event =
    PreWrite
  | AfterWrite bytes
  | SysWrite int bytes
  | PollModReadWrite int
  | PollDelete int
  | SysClose int
  | OnClosed "error option"

text \<open>
  The part of the event loop that one connection's operations act on: the connection,
  the interest mask the poller holds for its fd (\<open>None\<close> when the fd is not registered)
  and the effects so far.
\<close>

record loop_view =
  cn :: conn
  poll_mask :: "interest option"
  trace :: "event list"

text \<open>
  What the surroundings answer during one operation: the codec's \<open>Encode\<close>, the result
  of \<open>unix.Write\<close> (an errno, or the number of bytes written), the error of the
  poller's \<open>ModReadWrite\<close>, and the error \<open>loopCloseConn\<close> returns.
\<close>

record env =
  codec_Encode :: "bytes \<Rightarrow> error + bytes"
  unix_Write :: "int \<Rightarrow> bytes \<Rightarrow> Errno + nat"
  ModReadWrite_err :: "error option"
  loopCloseConn_err :: "error option"

definition emit :: "event \<Rightarrow> loop_view \<Rightarrow> loop_view" where
  "emit e s = s\<lparr>trace := trace s @ [e]\<rparr>"

text \<open>\<open>_, _ = c.outboundBuffer.Write(p)\<close>\<close>

definition outbound_Write :: "bytes \<Rightarrow> loop_view \<Rightarrow> loop_view" where
  "outbound_Write p s =
     s\<lparr>cn := (cn s)\<lparr>outboundBuffer := mb_Write (outboundBuffer (cn s)) p\<rparr>\<rparr>"

text \<open>
  Modelled from the spec: \<open>poller.ModReadWrite\<close> (\<open>internal/netpoll\<close> is not among the
  sources), the spec's "Modify(fd, interest) -- change mask" to read+write. The call can
  fail; then the mask stays as it was.
\<close>

definition poller_ModReadWrite :: "env \<Rightarrow> loop_view \<Rightarrow> error option \<times> loop_view" where
  "poller_ModReadWrite ev s =
     (let s1 = emit (PollModReadWrite (fd (cn s))) s
      in case ModReadWrite_err ev of
           None \<Rightarrow> (None, s1\<lparr>poll_mask := Some ReadWrite\<rparr>)
         | Some e \<Rightarrow> (Some e, s1))"

text \<open>
  \<open>releaseTCP\<close>. The pools (\<open>rbPool.Put\<close>, \<open>netpoll.PutPollAttachment\<close>) keep no state
  here.
\<close>

definition conn_releaseTCP :: "conn \<Rightarrow> conn" where
  "conn_releaseTCP c =
     c\<lparr>opened := False, sa := None, ctx := None, localAddr := None, remoteAddr := None,
       inboundBuffer := EmptyRingBuffer,
       outboundBuffer := mb_Release (outboundBuffer c)\<rparr>"

text \<open>
  Modelled from the spec: \<open>loopCloseConn\<close> (the event loop is not among the sources).
  "Close: [...] on the owning loop, fires OnClose, deregisters the fd, returns pooled
  buffers, closes the fd, removes the registry entry", and "transitions into closing
  are idempotent; the loop guards against double-close": a connection that is not
  opened is left alone.
\<close>

definition loopCloseConn ::
  "env \<Rightarrow> loop_view \<Rightarrow> error option \<Rightarrow> error option \<times> loop_view" where
  "loopCloseConn ev s err =
     (if \<not> opened (cn s) then (None, s)
      else
        let s1 = emit (OnClosed err) s;
            s2 = (emit (PollDelete (fd (cn s1))) s1)\<lparr>poll_mask := None\<rparr>;
            s3 = s2\<lparr>cn := conn_releaseTCP (cn s2)\<rparr>;
            s4 = emit (SysClose (fd (cn s3))) s3
        in (loopCloseConn_err ev, s4))"

text \<open>\<open>defer c.loop.eventHandler.AfterWrite(c, buf)\<close>: runs when the function returns.\<close>

definition defer_AfterWrite ::
  "bytes \<Rightarrow> error option \<times> loop_view \<Rightarrow> error option \<times> loop_view" where
  "defer_AfterWrite buf res = (fst res, emit (AfterWrite buf) (snd res))"


text \<open>\<open>conn.write\<close>\<close>

definition conn_write :: "env \<Rightarrow> loop_view \<Rightarrow> bytes \<Rightarrow> error option \<times> loop_view" where
  "conn_write ev s buf =
     defer_AfterWrite buf
       (case codec_Encode ev buf of
          Inl err \<Rightarrow> (Some err, s)
        | Inr packet \<Rightarrow>
            let s1 = emit PreWrite s
            in if \<not> mb_IsEmpty (outboundBuffer (cn s1))
               then (None, outbound_Write packet s1)
               else
                 let s2 = emit (SysWrite (fd (cn s1)) packet) s1
                 in (case unix_Write ev (fd (cn s1)) packet of
                       Inl errno \<Rightarrow>
                         if errno = EAGAIN
                         then poller_ModReadWrite ev (outbound_Write packet s2)
                         else loopCloseConn ev s2
                                (Some (SyscallError ''write'' (ErrnoError errno)))
                     | Inr n \<Rightarrow>
                         if n < length packet
                         then poller_ModReadWrite ev (outbound_Write (drop n packet) s2)
                         else (None, s2)))"

text \<open>\<open>conn.asyncWrite\<close>: the task that \<open>AsyncWrite\<close> hands to the loop.\<close>

definition conn_asyncWrite ::
  "env \<Rightarrow> loop_view \<Rightarrow> bytes \<Rightarrow> error option \<times> loop_view" where
  "conn_asyncWrite ev s itf =
     (if \<not> opened (cn s) then (None, s) else conn_write ev s itf)"

text \<open>\<open>conn.Read\<close>: the bytes returned and the connection afterwards.\<close>

definition conn_Read :: "conn \<Rightarrow> bytes \<times> conn" where
  "conn_Read c =
     (let (head, tail) = rb_PeekAll (inboundBuffer c)
      in if tail = [] then (head, c)
         else case transitBuffer c of
                None \<Rightarrow>
                  let b = rb_ByteBuffer (inboundBuffer c)
                  in (b, c\<lparr>transitBuffer := Some b\<rparr>)
              | Some t \<Rightarrow>
                  let b = bb_Write (bb_Write (bb_Reset t) head) tail
                  in (b, c\<lparr>transitBuffer := Some b\<rparr>))"

text \<open>\<open>conn.ReadN\<close>\<close>

definition conn_ReadN :: "conn \<Rightarrow> int \<Rightarrow> (int \<times> bytes) \<times> conn" where
  "conn_ReadN c n =
     (let inBufferLen = rb_Length (inboundBuffer c)
      in if inBufferLen \<le> n \<or> n \<le> 0
         then (let (b, c') = conn_Read c in ((inBufferLen, b), c'))
         else
           let (head, tail) = rb_Peek (inboundBuffer c) n
           in if tail = [] then ((n, head), c)
              else
                let t = (case transitBuffer c of None \<Rightarrow> bb_Get | Some t \<Rightarrow> bb_Reset t);
                    b = bb_Write (bb_Write t head) tail
                in ((n, b), c\<lparr>transitBuffer := Some b\<rparr>))"

text \<open>\<open>conn.ShiftN\<close>\<close>

definition conn_ShiftN :: "conn \<Rightarrow> int \<Rightarrow> int \<times> conn" where
  "conn_ShiftN c n =
     (let c1 = c\<lparr>inboundBuffer := snd (rb_Discard (inboundBuffer c) n)\<rparr>;
          c2 = (case transitBuffer c1 of
                  None \<Rightarrow> c1
                | Some t \<Rightarrow> c1\<lparr>transitBuffer := Some (bb_Reset t)\<rparr>)
      in (n, c2))"

text \<open>\<open>conn.BufferLength\<close>\<close>

definition conn_BufferLength :: "conn \<Rightarrow> int" where
  "conn_BufferLength c = rb_Length (inboundBuffer c)"



section \<open>Sample inputs\<close>

text \<open>
  A ring of capacity 4 holding the three bytes 13, 10, 11, wrapped around the end of
  its array; a connection on fd 7 with that ring and an empty outbound buffer; a loop
  view of it registered read-only; and surroundings whose codec is the identity and
  whose socket is not ready.
\<close>

definition sample_ring :: RingBuffer where
  "sample_ring = \<lparr>rb_buf = [10, 11, 12, 13], rb_r = 3, rb_w = 6\<rparr>"

definition sample_conn :: conn where
  "sample_conn =
     \<lparr>fd = 7, sa = None, ctx = None, opened = True, localAddr = None, remoteAddr = None,
      inboundBuffer = sample_ring, transitBuffer = Some [13],
      outboundBuffer = \<lparr>maxStaticBytes = 8, ringBytes = [], listBuffer = []\<rparr>\<rparr>"

definition sample_view :: loop_view where
  "sample_view = \<lparr>cn = sample_conn, poll_mask = Some ReadOnly, trace = []\<rparr>"

definition sample_env :: env where
  "sample_env =
     \<lparr>codec_Encode = (\<lambda>b. Inr b), unix_Write = (\<lambda>f b. Inl EAGAIN),
      ModReadWrite_err = None, loopCloseConn_err = None\<rparr>"

definition sample_iovs :: "slice list" where
  "sample_iovs = [\<lparr>ptr = 100, elems = [1, 2]\<rparr>, \<lparr>ptr = 200, elems = []\<rparr>]"

section \<open>Facts about the buffers\<close>

lemma mb_bytes_Write: "mb_bytes (mb_Write mb p) = mb_bytes mb @ p"
  by (simp add: mb_bytes_def mb_Write_def)


lemma rb_Length_Discard:
  assumes k: "0 \<le> k"
  shows "rb_Length (snd (rb_Discard rb k)) = rb_Length rb - min k (rb_Length rb)"
proof (cases "rb_cap rb = 0")
  case True
  then show ?thesis using k
    by (auto simp: rb_Length_def rb_Discard_def rb_cap_def Let_def min_def)
next
  case False
  let ?m = "2 * int (rb_cap rb)"
  let ?L = "rb_Length rb"
  let ?d = "min k ?L"
  from False have m: "0 < ?m" by simp
  have L: "0 \<le> ?L" "?L < ?m" using m by (simp_all add: rb_Length_def)
  have d: "0 \<le> ?d" "?d \<le> ?L" using k L by simp_all
  have "rb_Length (snd (rb_Discard rb k)) =
          (int (rb_w rb) - (int (rb_r rb) + ?d) mod ?m) mod ?m"
    using m by (simp add: rb_Length_def rb_Discard_def rb_cap_def Let_def)
  also have "\<dots> = (int (rb_w rb) - (int (rb_r rb) + ?d)) mod ?m"
    by (simp add: mod_diff_right_eq)
  also have "\<dots> = ((int (rb_w rb) - int (rb_r rb)) mod ?m - ?d) mod ?m"
    by (simp add: mod_diff_left_eq algebra_simps)
  also have "\<dots> = (?L - ?d) mod ?m" by (simp add: rb_Length_def)
  also have "\<dots> = ?L - ?d"
  proof (rule mod_pos_pos_trivial)
    show "0 \<le> ?L - ?d" using d by linarith
    show "?L - ?d < ?m" using L d by linarith
  qed
  finally show ?thesis .
qed

lemma sint_small: "uint r < 2 ^ 63 \<Longrightarrow> sint r = uint r" for r :: "64 word"
proof -
  assume a: "uint r < 2 ^ 63"
  have "- (2 ^ 63) \<le> uint r" by (rule order_trans [of _ 0]) simp_all
  then have "signed_take_bit 63 (uint r) = uint r"
    using a by (rule signed_take_bit_int_eq_self)
  then show ?thesis by (simp add: sint_uint)
qed

lemma mb_IsEmpty_bytes: "mb_IsEmpty mb \<Longrightarrow> mb_bytes mb = []"
  by (simp add: mb_IsEmpty_def mb_bytes_def)

lemma mb_IsEmpty_Release: "mb_IsEmpty (mb_Release mb)"
  by (simp add: mb_IsEmpty_def mb_Release_def)

lemma wrap_window:
  assumes i: "i < length buf" and m: "m \<le> length buf"
  shows "(if i + m \<le> length buf then take m (drop i buf)
          else drop i buf @ take (i + m - length buf) buf) =
         map (\<lambda>j. buf ! ((i + j) mod length buf)) [0 ..< m]"
proof (cases "i + m \<le> length buf")
  case True
  have "take m (drop i buf) = map (\<lambda>j. buf ! ((i + j) mod length buf)) [0 ..< m]"
  proof (rule nth_equalityI)
    show "length (take m (drop i buf)) = length (map (\<lambda>j. buf ! ((i + j) mod length buf)) [0 ..< m])"
      using True by simp
  next
    fix j assume "j < length (take m (drop i buf))"
    then have j: "j < m" by simp
    then have "i + j < length buf" using True by linarith
    then show "take m (drop i buf) ! j = map (\<lambda>j. buf ! ((i + j) mod length buf)) [0 ..< m] ! j"
      using j by simp
  qed
  with True show ?thesis by simp
next
  case False
  let ?C = "length buf"
  have "drop i buf @ take (i + m - ?C) buf = map (\<lambda>j. buf ! ((i + j) mod ?C)) [0 ..< m]"
  proof (rule nth_equalityI)
    show "length (drop i buf @ take (i + m - ?C) buf) = length (map (\<lambda>j. buf ! ((i + j) mod ?C)) [0 ..< m])"
      using False i m by simp
  next
    fix j assume "j < length (drop i buf @ take (i + m - ?C) buf)"
    then have j: "j < m" using False i m by simp
    show "(drop i buf @ take (i + m - ?C) buf) ! j = map (\<lambda>j. buf ! ((i + j) mod ?C)) [0 ..< m] ! j"
    proof (cases "j < ?C - i")
      case True
      then have "i + j < ?C" by linarith
      then show ?thesis using True j i by (simp add: nth_append)
    next
      case ge: False
      then have lo: "?C \<le> i + j" by linarith
      have hi: "i + j < 2 * ?C" using i j m by linarith
      have "(i + j) mod ?C = i + j - ?C"
        using lo hi by (simp add: mod_if)
      moreover have "j - (?C - i) = i + j - ?C" using lo i by linarith
      moreover have "i + j - ?C < i + m - ?C" using lo j by linarith
      ultimately show ?thesis using ge j i by (simp add: nth_append)
    qed
  qed
  with False show ?thesis by simp
qed

lemma rb_Peek_bytes:
  assumes wf: "rb_wf rb"
  shows "fst (rb_Peek rb n) @ snd (rb_Peek rb n) =
         take (nat (if n \<le> 0 \<or> n > rb_Length rb then rb_Length rb else n)) (rb_bytes rb)"
proof (cases "rb_cap rb = 0")
  case True
  then show ?thesis using wf
    by (simp add: rb_wf_def rb_Peek_def rb_bytes_def rb_cap_def Let_def)
next
  case False
  let ?C = "rb_cap rb"
  let ?L = "rb_Length rb"
  let ?m = "nat (if n \<le> 0 \<or> n > ?L then ?L else n)"
  let ?i = "rb_r rb mod ?C"
  from wf have LC: "?L \<le> int ?C" by (simp add: rb_wf_def)
  have i: "?i < length (rb_buf rb)" using False by (simp add: rb_cap_def)
  have mL: "?m \<le> nat ?L" by auto
  then have m: "?m \<le> length (rb_buf rb)" using LC by (simp add: rb_cap_def)
  have "fst (rb_Peek rb n) @ snd (rb_Peek rb n) =
        (if ?i + ?m \<le> length (rb_buf rb) then take ?m (drop ?i (rb_buf rb))
         else drop ?i (rb_buf rb) @ take (?i + ?m - length (rb_buf rb)) (rb_buf rb))"
    by (simp add: rb_Peek_def Let_def rb_cap_def)
  also have "\<dots> = map (\<lambda>j. rb_buf rb ! ((?i + j) mod length (rb_buf rb))) [0 ..< ?m]"
    using i m by (rule wrap_window)
  also have "\<dots> = map (\<lambda>j. rb_buf rb ! ((rb_r rb + j) mod ?C)) [0 ..< ?m]"
    by (simp add: rb_cap_def mod_add_left_eq)
  also have "\<dots> = take ?m (rb_bytes rb)"
    using mL by (simp add: rb_bytes_def take_map min_def)
  finally show ?thesis .
qed

lemma length_rb_bytes: "length (rb_bytes rb) = nat (rb_Length rb)"
  by (simp add: rb_bytes_def)

lemma conn_Read_result:
  assumes "rb_wf (inboundBuffer c)"
  shows "fst (conn_Read c) = rb_bytes (inboundBuffer c) \<and>
         inboundBuffer (snd (conn_Read c)) = inboundBuffer c"
proof -
  have "fst (rb_PeekAll (inboundBuffer c)) @ snd (rb_PeekAll (inboundBuffer c)) = rb_bytes (inboundBuffer c)"
    using rb_Peek_bytes [OF assms, of "rb_Length (inboundBuffer c)"]
    by (simp add: rb_PeekAll_def length_rb_bytes)
  then show ?thesis
    by (cases "rb_PeekAll (inboundBuffer c)")
       (auto simp: conn_Read_def rb_ByteBuffer_def bb_Write_def bb_Reset_def Let_def
             split: option.splits)
qed

lemmas write_path_defs =
  conn_write_def defer_AfterWrite_def emit_def outbound_Write_def poller_ModReadWrite_def
  loopCloseConn_def conn_releaseTCP_def Let_def

lemmas sample_defs = sample_view_def sample_conn_def sample_env_def sample_ring_def

section \<open>The synchronous write path\<close>

text \<open>
  C1, as amended. Every call of \<open>conn.write(buf)\<close> whose packet \<open>Encode\<close> produced goes
  one of these ways. When the outbound buffer is non-empty, the packet is appended to it
  and no write system call is made: the only effects are the two hooks. When the
  outbound buffer is empty, \<open>unix.Write\<close> is called on the packet, right after
  \<open>PreWrite\<close>; on \<open>EAGAIN\<close> the whole packet, and on a partial write of \<open>n\<close> bytes the
  packet without its first \<open>n\<close> bytes, is appended to the outbound buffer and the
  poller's \<open>ModReadWrite\<close> is called: \<open>write\<close> returns the error of that call, and the
  mask is read+write when the call succeeds.
\<close>

theorem write_appends_or_tries_syscall:
  assumes enc: "codec_Encode ev buf = Inr packet"
    and res: "conn_write ev s buf = (r, s')"
  shows
    "(\<not> mb_IsEmpty (outboundBuffer (cn s)) \<longrightarrow>
        outboundBuffer (cn s') = mb_Write (outboundBuffer (cn s)) packet \<and>
        mb_bytes (outboundBuffer (cn s')) = mb_bytes (outboundBuffer (cn s)) @ packet \<and>
        trace s' = trace s @ [PreWrite, AfterWrite buf] \<and>
        poll_mask s' = poll_mask s \<and> r = None) \<and>
     (mb_IsEmpty (outboundBuffer (cn s)) \<longrightarrow>
        take (length (trace s) + 2) (trace s') =
          trace s @ [PreWrite, SysWrite (fd (cn s)) packet]) \<and>
     (mb_IsEmpty (outboundBuffer (cn s)) \<and>
      unix_Write ev (fd (cn s)) packet = Inl EAGAIN \<longrightarrow>
        outboundBuffer (cn s') = mb_Write (outboundBuffer (cn s)) packet \<and>
        mb_bytes (outboundBuffer (cn s')) = packet \<and>
        trace s' = trace s @ [PreWrite, SysWrite (fd (cn s)) packet,
                              PollModReadWrite (fd (cn s)), AfterWrite buf] \<and>
        r = ModReadWrite_err ev \<and>
        (ModReadWrite_err ev = None \<longrightarrow> poll_mask s' = Some ReadWrite)) \<and>
     (\<forall>n. mb_IsEmpty (outboundBuffer (cn s)) \<and>
          unix_Write ev (fd (cn s)) packet = Inr n \<and> n < length packet \<longrightarrow>
        outboundBuffer (cn s') = mb_Write (outboundBuffer (cn s)) (drop n packet) \<and>
        mb_bytes (outboundBuffer (cn s')) = drop n packet \<and>
        trace s' = trace s @ [PreWrite, SysWrite (fd (cn s)) packet,
                              PollModReadWrite (fd (cn s)), AfterWrite buf] \<and>
        r = ModReadWrite_err ev \<and>
        (ModReadWrite_err ev = None \<longrightarrow> poll_mask s' = Some ReadWrite))"
proof (intro conjI impI allI)
  assume ne: "\<not> mb_IsEmpty (outboundBuffer (cn s))"
  then have eq: "(r, s') = (None, (outbound_Write packet (emit PreWrite s))\<lparr>trace := trace s @ [PreWrite, AfterWrite buf]\<rparr>)"
    using enc res [symmetric] by (simp add: write_path_defs)
  show "outboundBuffer (cn s') = mb_Write (outboundBuffer (cn s)) packet"
    using eq by (simp add: write_path_defs)
  then show "mb_bytes (outboundBuffer (cn s')) = mb_bytes (outboundBuffer (cn s)) @ packet"
    by (simp add: mb_bytes_Write)
  show "trace s' = trace s @ [PreWrite, AfterWrite buf]" using eq by simp
  show "poll_mask s' = poll_mask s" using eq by (simp add: write_path_defs)
  show "r = None" using eq by simp
next
  assume e: "mb_IsEmpty (outboundBuffer (cn s))"
  show "take (length (trace s) + 2) (trace s') = trace s @ [PreWrite, SysWrite (fd (cn s)) packet]"
    using enc e res [symmetric]
    by (auto simp: write_path_defs split: sum.splits option.splits if_splits)
next
  assume a: "mb_IsEmpty (outboundBuffer (cn s)) \<and> unix_Write ev (fd (cn s)) packet = Inl EAGAIN"
  then have eq: "conn_write ev s buf =
      defer_AfterWrite buf (poller_ModReadWrite ev
         (outbound_Write packet (emit (SysWrite (fd (cn s)) packet) (emit PreWrite s))))"
    using enc by (simp add: conn_write_def Let_def emit_def)
  show o: "outboundBuffer (cn s') = mb_Write (outboundBuffer (cn s)) packet"
    using res [symmetric] unfolding eq
    by (simp add: write_path_defs split: option.splits)
  show "mb_bytes (outboundBuffer (cn s')) = packet"
    using a by (simp add: o mb_bytes_Write mb_IsEmpty_bytes)
  show "trace s' = trace s @ [PreWrite, SysWrite (fd (cn s)) packet,
                              PollModReadWrite (fd (cn s)), AfterWrite buf]"
    using res [symmetric] unfolding eq
    by (simp add: write_path_defs split: option.splits)
  show "r = ModReadWrite_err ev"
    using res [symmetric] unfolding eq
    by (simp add: write_path_defs split: option.splits)
  assume "ModReadWrite_err ev = None"
  then show "poll_mask s' = Some ReadWrite"
    using res [symmetric] unfolding eq
    by (simp add: write_path_defs)
next
  fix n
  assume a: "mb_IsEmpty (outboundBuffer (cn s)) \<and>
          unix_Write ev (fd (cn s)) packet = Inr n \<and> n < length packet"
  then have eq: "conn_write ev s buf =
      defer_AfterWrite buf (poller_ModReadWrite ev
         (outbound_Write (drop n packet) (emit (SysWrite (fd (cn s)) packet) (emit PreWrite s))))"
    using enc by (simp add: conn_write_def Let_def emit_def)
  show o: "outboundBuffer (cn s') = mb_Write (outboundBuffer (cn s)) (drop n packet)"
    using res [symmetric] unfolding eq
    by (simp add: write_path_defs split: option.splits)
  show "mb_bytes (outboundBuffer (cn s')) = drop n packet"
    using a by (simp add: o mb_bytes_Write mb_IsEmpty_bytes)
  show "trace s' = trace s @ [PreWrite, SysWrite (fd (cn s)) packet,
                              PollModReadWrite (fd (cn s)), AfterWrite buf]"
    using res [symmetric] unfolding eq
    by (simp add: write_path_defs split: option.splits)
  show "r = ModReadWrite_err ev"
    using res [symmetric] unfolding eq
    by (simp add: write_path_defs split: option.splits)
  assume "ModReadWrite_err ev = None"
  then show "poll_mask s' = Some ReadWrite"
    using res [symmetric] unfolding eq
    by (simp add: write_path_defs)
qed


theorem write_appends_or_tries_syscall_witness:
  "codec_Encode sample_env [1, 2, 3] = Inr [1, 2, 3] \<and>
   mb_IsEmpty (outboundBuffer (cn sample_view)) \<and>
   unix_Write sample_env (fd (cn sample_view)) [1, 2, 3] = Inl EAGAIN \<and>
   ModReadWrite_err sample_env = None \<and>
   conn_write sample_env sample_view [1, 2, 3] =
     (None,
      \<lparr>cn = sample_conn\<lparr>outboundBuffer :=
              \<lparr>maxStaticBytes = 8, ringBytes = [1, 2, 3], listBuffer = []\<rparr>\<rparr>,
       poll_mask = Some ReadWrite,
       trace = [PreWrite, SysWrite 7 [1, 2, 3], PollModReadWrite 7, AfterWrite [1, 2, 3]]\<rparr>) \<and>
   mb_bytes (outboundBuffer (cn (snd (conn_write sample_env sample_view [1, 2, 3])))) =
     [1, 2, 3] \<and>
   poll_mask (snd (conn_write sample_env sample_view [1, 2, 3])) = Some ReadWrite"
proof -
  let ?s' = "\<lparr>cn = sample_conn\<lparr>outboundBuffer :=
              \<lparr>maxStaticBytes = 8, ringBytes = [1, 2, 3], listBuffer = []\<rparr>\<rparr>,
       poll_mask = Some ReadWrite,
       trace = [PreWrite, SysWrite 7 [1, 2, 3], PollModReadWrite 7, AfterWrite [1, 2, 3]]\<rparr>"
  have enc: "codec_Encode sample_env [1, 2, 3] = Inr [1, 2, 3]"
    by (simp add: sample_env_def)
  have res: "conn_write sample_env sample_view [1, 2, 3] = (None, ?s')"
    by (simp add: write_path_defs sample_defs mb_IsEmpty_def mb_Write_def)
  have e: "mb_IsEmpty (outboundBuffer (cn sample_view))"
    by (simp add: sample_defs mb_IsEmpty_def)
  have w: "unix_Write sample_env (fd (cn sample_view)) [1, 2, 3] = Inl EAGAIN"
    by (simp add: sample_env_def)
  have m: "ModReadWrite_err sample_env = None"
    by (simp add: sample_env_def)
  note T = write_appends_or_tries_syscall [OF enc res]
  have A: "mb_bytes (outboundBuffer (cn (snd (conn_write sample_env sample_view [1, 2, 3])))) =
     [1, 2, 3]"
    unfolding res snd_conv using T e w m by blast
  have B: "poll_mask (snd (conn_write sample_env sample_view [1, 2, 3])) = Some ReadWrite"
    unfolding res snd_conv using T e w m by blast
  from enc e w m res A B show ?thesis by blast
qed

text \<open>
  C1, as stated: it fails where \<open>ModReadWrite\<close> fails. On the sample view, registered
  read-only with an empty outbound buffer, \<open>conn.write\<close> of three bytes buffers all three
  when the socket answers \<open>EAGAIN\<close>, and the last one when the socket takes two, and
  returns the poller's error; the mask is still read-only.
\<close>

theorem write_mask_unchanged_counterexample:
  "codec_Encode (sample_env\<lparr>ModReadWrite_err := Some (OtherError ''epoll_ctl mod'')\<rparr>)
     [1, 2, 3] = Inr [1, 2, 3] \<and>
   mb_IsEmpty (outboundBuffer (cn sample_view)) \<and>
   unix_Write (sample_env\<lparr>ModReadWrite_err := Some (OtherError ''epoll_ctl mod'')\<rparr>)
     (fd (cn sample_view)) [1, 2, 3] = Inl EAGAIN \<and>
   conn_write (sample_env\<lparr>ModReadWrite_err := Some (OtherError ''epoll_ctl mod'')\<rparr>)
       sample_view [1, 2, 3] =
     (Some (OtherError ''epoll_ctl mod''),
      \<lparr>cn = sample_conn\<lparr>outboundBuffer :=
              \<lparr>maxStaticBytes = 8, ringBytes = [1, 2, 3], listBuffer = []\<rparr>\<rparr>,
       poll_mask = Some ReadOnly,
       trace = [PreWrite, SysWrite 7 [1, 2, 3], PollModReadWrite 7, AfterWrite [1, 2, 3]]\<rparr>) \<and>
   conn_write (sample_env\<lparr>unix_Write := (\<lambda>f b. Inr 2),
                          ModReadWrite_err := Some (OtherError ''epoll_ctl mod'')\<rparr>)
       sample_view [1, 2, 3] =
     (Some (OtherError ''epoll_ctl mod''),
      \<lparr>cn = sample_conn\<lparr>outboundBuffer :=
              \<lparr>maxStaticBytes = 8, ringBytes = [3], listBuffer = []\<rparr>\<rparr>,
       poll_mask = Some ReadOnly,
       trace = [PreWrite, SysWrite 7 [1, 2, 3], PollModReadWrite 7, AfterWrite [1, 2, 3]]\<rparr>)"
  by (simp add: write_path_defs sample_defs mb_IsEmpty_def mb_Write_def)

text \<open>
  C3. \<open>conn.write(buf)\<close> calls the codec's \<open>Encode\<close> first. When \<open>Encode\<close> returns an
  error, \<open>write\<close> returns that error and the connection is as before: the connection
  record (outbound buffer included) and the poller's mask are unchanged, and the only
  effect is the deferred \<open>AfterWrite\<close> hook, so there is no write system call and no call
  of the poller.
\<close>

theorem write_encode_error_atomic:
  "codec_Encode ev buf = Inl e \<Longrightarrow>
     fst (conn_write ev s buf) = Some e \<and>
     cn (snd (conn_write ev s buf)) = cn s \<and>
     poll_mask (snd (conn_write ev s buf)) = poll_mask s \<and>
     trace (snd (conn_write ev s buf)) = trace s @ [AfterWrite buf]"
  by (simp add: conn_write_def defer_AfterWrite_def emit_def)

theorem write_encode_error_atomic_witness:
  "codec_Encode (sample_env\<lparr>codec_Encode := (\<lambda>b. Inl (OtherError ''too long''))\<rparr>) [1, 2]
     = Inl (OtherError ''too long'') \<and>
   conn_write (sample_env\<lparr>codec_Encode := (\<lambda>b. Inl (OtherError ''too long''))\<rparr>)
       sample_view [1, 2]
     = (Some (OtherError ''too long''), sample_view\<lparr>trace := [AfterWrite [1, 2]]\<rparr>)"
  using write_encode_error_atomic
    [of "sample_env\<lparr>codec_Encode := (\<lambda>b. Inl (OtherError ''too long''))\<rparr>" "[1, 2]"
        "OtherError ''too long''" sample_view]
  by (simp add: prod_eq_iff sample_view_def)

text \<open>
  C6. When the outbound buffer is empty and \<open>unix.Write\<close> fails with an errno other than
  \<open>EAGAIN\<close>, \<open>conn.write\<close> hands the connection to \<open>loopCloseConn\<close> with the cause
  \<open>os.NewSyscallError("write", errno)\<close> and returns what that returns; it appends
  nothing to the outbound buffer, which is empty afterwards. On an opened connection
  \<open>OnClosed\<close> then receives exactly this cause, the fd is removed from the poller and
  closed, and the connection is no longer opened.
\<close>

theorem write_hard_error_closes:
  assumes enc: "codec_Encode ev buf = Inr packet"
    and empty: "mb_IsEmpty (outboundBuffer (cn s))"
    and err: "unix_Write ev (fd (cn s)) packet = Inl errno"
    and hard: "errno \<noteq> EAGAIN"
  shows
    "conn_write ev s buf =
       defer_AfterWrite buf
         (loopCloseConn ev (emit (SysWrite (fd (cn s)) packet) (emit PreWrite s))
            (Some (SyscallError ''write'' (ErrnoError errno)))) \<and>
     mb_IsEmpty (outboundBuffer (cn (snd (conn_write ev s buf)))) \<and>
     (opened (cn s) \<longrightarrow>
        trace (snd (conn_write ev s buf)) =
          trace s @ [PreWrite, SysWrite (fd (cn s)) packet,
                     OnClosed (Some (SyscallError ''write'' (ErrnoError errno))),
                     PollDelete (fd (cn s)), SysClose (fd (cn s)), AfterWrite buf] \<and>
        \<not> opened (cn (snd (conn_write ev s buf))) \<and>
        poll_mask (snd (conn_write ev s buf)) = None \<and>
        fst (conn_write ev s buf) = loopCloseConn_err ev)"
proof -
  have eq: "conn_write ev s buf =
       defer_AfterWrite buf
         (loopCloseConn ev (emit (SysWrite (fd (cn s)) packet) (emit PreWrite s))
            (Some (SyscallError ''write'' (ErrnoError errno))))"
    using enc empty err hard by (simp add: conn_write_def Let_def emit_def)
  have "mb_IsEmpty (outboundBuffer (cn (snd (conn_write ev s buf))))"
    unfolding eq using empty
    by (simp add: defer_AfterWrite_def emit_def loopCloseConn_def conn_releaseTCP_def
        Let_def mb_IsEmpty_Release)
  moreover have "opened (cn s) \<Longrightarrow>
        trace (snd (conn_write ev s buf)) =
          trace s @ [PreWrite, SysWrite (fd (cn s)) packet,
                     OnClosed (Some (SyscallError ''write'' (ErrnoError errno))),
                     PollDelete (fd (cn s)), SysClose (fd (cn s)), AfterWrite buf] \<and>
        \<not> opened (cn (snd (conn_write ev s buf))) \<and>
        poll_mask (snd (conn_write ev s buf)) = None \<and>
        fst (conn_write ev s buf) = loopCloseConn_err ev"
    unfolding eq
    by (simp add: defer_AfterWrite_def emit_def loopCloseConn_def conn_releaseTCP_def Let_def)
  ultimately show ?thesis using eq by blast
qed

theorem write_hard_error_closes_witness:
  "codec_Encode (sample_env\<lparr>unix_Write := (\<lambda>f b. Inl 32)\<rparr>) [1, 2, 3] = Inr [1, 2, 3] \<and>
   mb_IsEmpty (outboundBuffer (cn sample_view)) \<and>
   unix_Write (sample_env\<lparr>unix_Write := (\<lambda>f b. Inl 32)\<rparr>) (fd (cn sample_view)) [1, 2, 3]
     = Inl 32 \<and>
   32 \<noteq> EAGAIN \<and> opened (cn sample_view) \<and>
   trace (snd (conn_write (sample_env\<lparr>unix_Write := (\<lambda>f b. Inl 32)\<rparr>) sample_view [1, 2, 3])) =
     [PreWrite, SysWrite 7 [1, 2, 3],
      OnClosed (Some (SyscallError ''write'' (ErrnoError 32))),
      PollDelete 7, SysClose 7, AfterWrite [1, 2, 3]] \<and>
   mb_IsEmpty (outboundBuffer (cn (snd
     (conn_write (sample_env\<lparr>unix_Write := (\<lambda>f b. Inl 32)\<rparr>) sample_view [1, 2, 3]))))"
proof -
  let ?ev = "sample_env\<lparr>unix_Write := (\<lambda>f b. Inl 32)\<rparr>"
  have enc: "codec_Encode ?ev [1, 2, 3] = Inr [1, 2, 3]"
    by (simp add: sample_env_def)
  have e: "mb_IsEmpty (outboundBuffer (cn sample_view))"
    by (simp add: sample_defs mb_IsEmpty_def)
  have w: "unix_Write ?ev (fd (cn sample_view)) [1, 2, 3] = Inl 32"
    by simp
  have h: "32 \<noteq> EAGAIN" by (simp add: EAGAIN_def)
  have opn: "opened (cn sample_view)" by (simp add: sample_defs)
  have f: "fd (cn sample_view) = 7" "trace sample_view = []" by (simp_all add: sample_defs)
  note T = write_hard_error_closes [OF enc e w h]
  from T opn have "trace (snd (conn_write ?ev sample_view [1, 2, 3])) =
      trace sample_view @ [PreWrite, SysWrite (fd (cn sample_view)) [1, 2, 3],
        OnClosed (Some (SyscallError ''write'' (ErrnoError 32))),
        PollDelete (fd (cn sample_view)), SysClose (fd (cn sample_view)), AfterWrite [1, 2, 3]]"
    by blast
  then have tr: "trace (snd (conn_write ?ev sample_view [1, 2, 3])) =
      [PreWrite, SysWrite 7 [1, 2, 3],
       OnClosed (Some (SyscallError ''write'' (ErrnoError 32))),
       PollDelete 7, SysClose 7, AfterWrite [1, 2, 3]]"
    unfolding f by simp
  from T have "mb_IsEmpty (outboundBuffer (cn (snd (conn_write ?ev sample_view [1, 2, 3]))))"
    by blast
  with enc e w h opn tr show ?thesis by blast
qed




text \<open>
  C8. When the task that \<open>AsyncWrite\<close> submitted runs on a connection whose \<open>opened\<close>
  flag is false, \<open>asyncWrite\<close> returns nil and does nothing: nothing is encoded, written
  or buffered, no hook runs, and no error reaches the caller.
\<close>

theorem asyncWrite_unopened_discards:
  "\<not> opened (cn s) \<Longrightarrow> conn_asyncWrite ev s buf = (None, s)"
  by (simp add: conn_asyncWrite_def)

theorem asyncWrite_unopened_discards_witness:
  "\<not> opened (cn (sample_view\<lparr>cn := sample_conn\<lparr>opened := False\<rparr>\<rparr>)) \<and>
   conn_asyncWrite sample_env (sample_view\<lparr>cn := sample_conn\<lparr>opened := False\<rparr>\<rparr>) [1, 2]
     = (None, sample_view\<lparr>cn := sample_conn\<lparr>opened := False\<rparr>\<rparr>)"
  using asyncWrite_unopened_discards
    [of "sample_view\<lparr>cn := sample_conn\<lparr>opened := False\<rparr>\<rparr>" sample_env "[1, 2]"]
  by simp

section \<open>The inbound side\<close>

text \<open>
  C4, as amended. For every \<open>k \<ge> 0\<close> and every inbound buffer, \<open>ShiftN(k)\<close> decreases
  \<open>BufferLength()\<close> by exactly \<open>min(k, L)\<close>, \<open>L\<close> being the length before.
\<close>

theorem ShiftN_decreases_BufferLength:
  "0 \<le> k \<Longrightarrow>
     conn_BufferLength (snd (conn_ShiftN c k)) =
       conn_BufferLength c - min k (conn_BufferLength c)"
  using rb_Length_Discard [of k "inboundBuffer c"]
  by (simp add: conn_BufferLength_def conn_ShiftN_def Let_def split: option.splits)

theorem ShiftN_decreases_BufferLength_witness:
  "(0::int) \<le> 5 \<and> conn_BufferLength sample_conn = 3 \<and>
   conn_BufferLength (snd (conn_ShiftN sample_conn 5)) = 0"
  using ShiftN_decreases_BufferLength [of 5 sample_conn]
  by (simp add: conn_BufferLength_def sample_conn_def sample_ring_def rb_Length_def
      rb_cap_def)

text \<open>
  C4, as stated, for every \<open>k\<close>: it fails for a negative \<open>k\<close>. The sample ring holds 3
  bytes in a capacity of 4; after \<open>ShiftN(-8)\<close> the length is not \<open>3 - min(-8, 3) = 11\<close>.
\<close>

theorem ShiftN_negative_counterexample:
  "conn_BufferLength (snd (conn_ShiftN sample_conn (- 8))) \<noteq>
     conn_BufferLength sample_conn - min (- 8) (conn_BufferLength sample_conn)"
  by (simp add: conn_BufferLength_def conn_ShiftN_def sample_conn_def sample_ring_def
      rb_Length_def rb_Discard_def rb_cap_def Let_def bb_Reset_def)

text \<open>
  C5. For every \<open>n\<close> and every inbound buffer of length \<open>L\<close>, \<open>ReadN(n)\<close> leaves the
  inbound buffer as it is and returns \<open>L\<close> with all \<open>L\<close> buffered bytes when \<open>n \<le> 0\<close> or
  \<open>n \<ge> L\<close>, and \<open>n\<close> with the first \<open>n\<close> buffered bytes, in FIFO order, when
  \<open>0 < n < L\<close>. There is no error result; the count returned is the number of bytes
  returned.
\<close>

theorem ReadN_peeks_prefix:
  assumes "rb_wf (inboundBuffer c)"
  shows "inboundBuffer (snd (conn_ReadN c n)) = inboundBuffer c \<and>
         fst (conn_ReadN c n) =
           (if n \<le> 0 \<or> rb_Length (inboundBuffer c) \<le> n
            then (rb_Length (inboundBuffer c), rb_bytes (inboundBuffer c))
            else (n, take (nat n) (rb_bytes (inboundBuffer c)))) \<and>
         int (length (snd (fst (conn_ReadN c n)))) = fst (fst (conn_ReadN c n))"
proof (cases "rb_Length (inboundBuffer c) \<le> n \<or> n \<le> 0")
  case True
  then show ?thesis
    using conn_Read_result [OF assms] assms
    by (auto simp: conn_ReadN_def Let_def case_prod_beta length_rb_bytes rb_wf_def)
next
  case False
  then have "fst (rb_Peek (inboundBuffer c) n) @ snd (rb_Peek (inboundBuffer c) n) =
        take (nat n) (rb_bytes (inboundBuffer c))"
    using rb_Peek_bytes [OF assms, of n] by auto
  then show ?thesis
    using False
    by (cases "rb_Peek (inboundBuffer c) n")
       (auto simp: conn_ReadN_def bb_Write_def bb_Reset_def bb_Get_def Let_def
             length_rb_bytes split: option.splits)
qed

theorem ReadN_peeks_prefix_witness:
  "rb_wf (inboundBuffer sample_conn) \<and>
   fst (conn_ReadN sample_conn 2) = (2, [13, 10]) \<and>
   fst (conn_ReadN sample_conn 7) = (3, [13, 10, 11]) \<and>
   fst (conn_ReadN sample_conn 0) = (3, [13, 10, 11]) \<and>
   inboundBuffer (snd (conn_ReadN sample_conn 2)) = sample_ring"
proof -
  have i: "inboundBuffer sample_conn = sample_ring"
    by (simp add: sample_conn_def)
  have L: "rb_Length sample_ring = 3"
    by (simp add: sample_ring_def rb_Length_def rb_cap_def)
  have b: "rb_bytes sample_ring = [13, 10, 11]"
    by (simp add: rb_bytes_def L upt_rec) (simp add: sample_ring_def rb_cap_def)
  have wf: "rb_wf (inboundBuffer sample_conn)"
    by (simp add: i rb_wf_def L) (simp add: sample_ring_def rb_cap_def)
  show ?thesis
    using wf ReadN_peeks_prefix [OF wf, of 2] ReadN_peeks_prefix [OF wf, of 7]
      ReadN_peeks_prefix [OF wf, of 0]
    by (simp add: i L b)
qed

text \<open>
  C10. For every \<open>k\<close>, \<open>ShiftN(k)\<close> returns \<open>k\<close>, also when \<open>k\<close> exceeds the length of the
  inbound buffer, where it differs from the number of bytes that \<open>Discard\<close> reports as
  discarded; and every \<open>ShiftN\<close> empties the transit buffer when there is one.
\<close>

theorem ShiftN_returns_argument:
  "fst (conn_ShiftN c k) = k \<and>
   transitBuffer (snd (conn_ShiftN c k)) = map_option (\<lambda>t. []) (transitBuffer c) \<and>
   (rb_Length (inboundBuffer c) < k \<longrightarrow>
      fst (conn_ShiftN c k) \<noteq> fst (rb_Discard (inboundBuffer c) k))"
  by (auto simp: conn_ShiftN_def rb_Discard_def Let_def bb_Reset_def split: option.splits)

theorem ShiftN_returns_argument_witness:
  "rb_Length (inboundBuffer sample_conn) < 5 \<and>
   fst (conn_ShiftN sample_conn 5) = 5 \<and>
   fst (rb_Discard (inboundBuffer sample_conn) 5) = 3 \<and>
   transitBuffer (snd (conn_ShiftN sample_conn 5)) = Some []"
  using ShiftN_returns_argument [of sample_conn 5]
  by (simp add: sample_conn_def sample_ring_def rb_Length_def rb_Discard_def rb_cap_def
      Let_def)

section \<open>The scatter/gather adapter\<close>

text \<open>
  C7. For every non-empty list of byte slices, \<open>SendMsgs(fd, iovs)\<close> issues exactly one
  system call, \<open>sendmsg\<close> on \<open>fd\<close> with the flag \<open>MSG_ZEROCOPY\<close>, whose message header
  carries one iovec per input slice, in order, each with the length of its slice and the
  address of its first byte (the address of \<open>_zero\<close> for an empty slice). It returns
  \<open>(int(r), nil)\<close> for the count \<open>r\<close> the kernel reports when the errno is 0, and
  \<open>(0, errno)\<close> otherwise; \<open>int(r)\<close> is \<open>r\<close> itself for every count below \<open>2^63\<close>.
\<close>

theorem SendMsgs_single_sendmsg:
  assumes "iovs \<noteq> []"
  shows "let call = \<lparr>trap = SYS_SENDMSG, a1 = sockfd,
                     a2 = \<lparr>Iov = map (\<lambda>iov. \<lparr>Base = (if elems iov = [] then zero_addr
                                                       else ptr iov),
                                               Len = length (elems iov)\<rparr>) iovs,
                           Iovlen = length iovs\<rparr>,
                     a3 = MSG_ZEROCOPY\<rparr>;
             r = fst (krn call); errno = snd (krn call)
         in SendMsgs krn zero_addr sockfd iovs =
              Inr ([call], if errno = 0 then (sint r, None) else (0, Some errno))
            \<and> (uint r < 2 ^ 63 \<longrightarrow> sint r = uint r)"
proof -
  have m: "build_iovecs zero_addr iovs =
        map (\<lambda>iov. \<lparr>Base = (if elems iov = [] then zero_addr else ptr iov),
                     Len = length (elems iov)\<rparr>) iovs"
    by (simp add: build_iovecs_def mk_iovec_def)
  show ?thesis
    using assms unfolding SendMsgs_def m Let_def
    by (auto simp: case_prod_beta sint_small)
qed

theorem SendMsgs_single_sendmsg_witness:
  "sample_iovs \<noteq> [] \<and>
   SendMsgs (\<lambda>c. (5, 0)) 999 3 sample_iovs =
     Inr ([\<lparr>trap = SYS_SENDMSG, a1 = 3,
            a2 = \<lparr>Iov = [\<lparr>Base = 100, Len = 2\<rparr>, \<lparr>Base = 999, Len = 0\<rparr>], Iovlen = 2\<rparr>,
            a3 = MSG_ZEROCOPY\<rparr>], 5, None)"
  using SendMsgs_single_sendmsg [of sample_iovs 3 999 "\<lambda>c. (5, 0)"]
  by (simp add: sample_iovs_def Let_def)

text \<open>
  C9. \<open>SendMsgs\<close> with an empty \<open>iovs\<close> panics with an index out of range, at
  \<open>&iovecs[0]\<close>, before any system call; with a non-empty \<open>iovs\<close> it never panics.
\<close>

theorem SendMsgs_empty_panics:
  "SendMsgs krn zero_addr sockfd [] = Inl IndexOutOfRange \<and>
   (iovs \<noteq> [] \<longrightarrow> (\<forall>p. SendMsgs krn zero_addr sockfd iovs \<noteq> Inl p))"
  by (auto simp: SendMsgs_def build_iovecs_def Let_def case_prod_beta)

theorem SendMsgs_empty_panics_witness:
  "sample_iovs \<noteq> [] \<and>
   SendMsgs (\<lambda>c. (5, 0)) 999 3 [] = Inl IndexOutOfRange \<and>
   SendMsgs (\<lambda>c. (5, 0)) 999 3 sample_iovs \<noteq> Inl IndexOutOfRange"
  using SendMsgs_empty_panics [of "\<lambda>c. (5, 0)" 999 3 sample_iovs]
  by (simp add: sample_iovs_def)

end
